theory Spec2Isabelle
  imports Complex_Main "HOL-Library.AList" "HOL-Library.Product_Lexorder"
begin

section \<open>Python values used by the retrieval services\<close>

text \<open>
  The services are Python programs. A Python \<open>str\<close> is a sequence of code points; it is
  modelled as a \<open>string\<close> whose characters are the code points below 256, one
  \<open>char\<close> per code point, so that \<open>length\<close> is Python's \<open>len\<close>. Lists are lists,
  dictionaries are maps or association lists, exceptions are values of \<open>error\<close>, and
  Python floats are idealised as exact rationals.
\<close>

datatype error = HTTPException nat | IndexError | KeyError | ValueError | AssertionError

text \<open>The Python class name of each exception.\<close>

fun exception_class :: "error \<Rightarrow> string" where
  "exception_class (HTTPException _) = ''HTTPException''"
| "exception_class IndexError = ''IndexError''"
| "exception_class KeyError = ''KeyError''"
| "exception_class ValueError = ''ValueError''"
| "exception_class AssertionError = ''AssertionError''"

text \<open>\<open>range(i, stop, step)\<close> for a positive step.\<close>

function py_range :: "nat \<Rightarrow> nat \<Rightarrow> nat \<Rightarrow> nat list" where
  "py_range i stop step =
     (if 0 < step \<and> i < stop then i # py_range (i + step) stop step else [])"
  by pat_completeness auto
termination
  by (relation "measure (\<lambda>(i, stop, step). stop - i)") auto

declare py_range.simps [simp del]

text \<open>\<open>xs[i:j]\<close> for non-negative \<open>i\<close> and \<open>j\<close>: the bounds are clamped, never an error.\<close>

definition py_slice :: "'a list \<Rightarrow> nat \<Rightarrow> nat \<Rightarrow> 'a list" where
  "py_slice xs i j = take (j - i) (drop i xs)"

text \<open>\<open>xs[:k]\<close> for any integer \<open>k\<close>: a negative \<open>k\<close> counts from the end.\<close>

definition py_slice_to :: "int \<Rightarrow> 'a list \<Rightarrow> 'a list" where
  "py_slice_to k xs =
     (if 0 \<le> k then take (nat k) xs else take (length xs - nat (- k)) xs)"

text \<open>\<open>[xs[i] for i in is]\<close>: the first index out of range raises \<open>IndexError\<close>.\<close>

definition lookup_all :: "'a list \<Rightarrow> nat list \<Rightarrow> error + 'a list" where
  "lookup_all xs is =
     (if \<forall>i \<in> set is. i < length xs then Inr (map ((!) xs) is) else Inl IndexError)"

text \<open>\<open>a or b\<close> on an optional string: \<open>None\<close> and the empty string are both falsy.\<close>

definition str_or :: "string option \<Rightarrow> string \<Rightarrow> string" where
  "str_or a b = (case a of None \<Rightarrow> b | Some s \<Rightarrow> if s = [] then b else s)"

text \<open>\<open>str(n)\<close> for a natural number, and the chunk identifier \<open>f"doc_{i}"\<close>.\<close>

definition digit_char :: "nat \<Rightarrow> char" where
  "digit_char d = char_of (48 + d)"

fun str_nat :: "nat \<Rightarrow> string" where
  "str_nat n = (if n < 10 then [digit_char n] else str_nat (n div 10) @ [digit_char (n mod 10)])"

declare str_nat.simps [simp del]

definition doc_id :: "nat \<Rightarrow> string" where
  "doc_id i = ''doc_'' @ str_nat i"

subsection \<open>Characters: \<open>lower\<close>, whitespace and word characters\<close>

text \<open>
  \<open>str.lower\<close> on the code points below 256: the ASCII capitals and the Latin-1 capitals
  (192 to 222, without the multiplication sign 215) move up by 32.
\<close>

definition lower_char :: "char \<Rightarrow> char" where
  "lower_char c =
     (let n = (of_char c :: nat)
      in if (65 \<le> n \<and> n \<le> 90) \<or> (192 \<le> n \<and> n \<le> 222 \<and> n \<noteq> 215)
         then char_of (n + 32) else c)"

definition lower :: "string \<Rightarrow> string" where
  "lower s = map lower_char s"

text \<open>The characters \<open>str.split()\<close> separates on (\<open>str.isspace\<close>).\<close>

definition isspace :: "char \<Rightarrow> bool" where
  "isspace c = ((of_char c :: nat) \<in> {9, 10, 11, 12, 13, 28, 29, 30, 31, 32, 133, 160})"

text \<open>The characters the regular expression \<open>\w\<close> matches on a \<open>str\<close>.\<close>

definition isword :: "char \<Rightarrow> bool" where
  "isword c =
     (let n = (of_char c :: nat)
      in (48 \<le> n \<and> n \<le> 57) \<or> (65 \<le> n \<and> n \<le> 90) \<or> n = 95 \<or> (97 \<le> n \<and> n \<le> 122)
         \<or> n \<in> {170, 178, 179, 181, 185, 186, 188, 189, 190}
         \<or> (192 \<le> n \<and> n \<le> 255 \<and> n \<noteq> 215 \<and> n \<noteq> 247))"

text \<open>
  The maximal runs of characters satisfying \<open>P\<close>, left to right; \<open>w\<close> holds the current
  run, reversed.
\<close>

fun runs_acc :: "(char \<Rightarrow> bool) \<Rightarrow> string \<Rightarrow> string \<Rightarrow> string list" where
  "runs_acc P w [] = (if w = [] then [] else [rev w])"
| "runs_acc P w (c # cs) =
     (if P c then runs_acc P (c # w) cs
      else if w = [] then runs_acc P [] cs
      else rev w # runs_acc P [] cs)"

text \<open>\<open>s.split()\<close> and \<open>re.findall(r'\w+', s)\<close>.\<close>

definition split :: "string \<Rightarrow> string list" where
  "split s = runs_acc (\<lambda>c. \<not> isspace c) [] s"

definition findall_words :: "string \<Rightarrow> string list" where
  "findall_words s = runs_acc isword [] s"

text \<open>\<open>k in s\<close> on strings: \<open>k\<close> occurs in \<open>s\<close> as a contiguous substring.\<close>

fun str_in :: "string \<Rightarrow> string \<Rightarrow> bool" where
  "str_in k [] = (k = [])"
| "str_in k (c # cs) = (take (length k) (c # cs) = k \<or> str_in k cs)"

section \<open>Chunking\<close>

text \<open>\<open>chunks = [text[i:i+1000] for i in range(0, len(text), 1000)]\<close>\<close>

definition chunks :: "'a list \<Rightarrow> 'a list list" where
  "chunks text = map (\<lambda>i. py_slice text i (i + 1000)) (py_range 0 (length text) 1000)"

type_synonym metadata = "(string \<times> string) list"

text \<open>
  The file-reading collaborator \<open>_read_text_file\<close> is a parameter \<open>reader\<close> of the
  operations: it maps a path to the decoded text and, catching every exception itself,
  to the empty string when the file cannot be read or its type is not supported.
\<close>

datatype ingest_reply =
    Ingested nat "string list" "string option"
  | Added nat nat

text \<open>
  \<open>Ingested count ids error\<close> is the dictionary \<open>{"count", "ids", "error"}\<close>,
  \<open>Added count total\<close> the dictionary \<open>{"count", "total"}\<close>.
\<close>

record ingest_request =
  file_path :: string
  source :: "string option"
  user_id :: "string option"

record 'm query_result =
  ids :: "string list"
  distances :: "rat list"
  metadatas :: "'m list"
  documents :: "string list"

definition empty_result :: "'m query_result" where
  "empty_result = \<lparr>ids = [], distances = [], metadatas = [], documents = []\<rparr>"

section \<open>\<open>simple_working_rag\<close>: one global store\<close>

record sw_state =
  sw_documents :: "string list"
  sw_metadatas :: "metadata list"

definition no_readable_text :: "string \<Rightarrow> string" where
  "no_readable_text path = ''No readable text in '' @ path"

definition swr_ingest ::
  "(string \<Rightarrow> string) \<Rightarrow> ingest_request \<Rightarrow> sw_state \<Rightarrow> (error + ingest_reply) \<times> sw_state" where
  "swr_ingest reader req st =
     (if file_path req = [] then (Inl (HTTPException 400), st)
      else
        let text = reader (file_path req) in
        if text = [] then (Inr (Ingested 0 [] (Some (no_readable_text (file_path req)))), st)
        else
          let cs = chunks text;
              start_idx = length (sw_documents st);
              docs = sw_documents st @ cs;
              meta = [(''source'', str_or (source req) (file_path req)),
                      (''user_id'', str_or (user_id req) ''default'')];
              metas = sw_metadatas st @ map (\<lambda>_. meta) cs
          in (Inr (Ingested (length cs) (map doc_id [start_idx ..< length docs]) None),
              \<lparr>sw_documents = docs, sw_metadatas = metas\<rparr>))"

section \<open>\<open>simple_rag_service\<close>: one store per user\<close>

record rag_state =
  user_documents :: "string \<rightharpoonup> string list"
  user_metadatas :: "string \<rightharpoonup> metadata list"

text \<open>\<open>SimpleRAG.__init__\<close>: both dictionaries start empty.\<close>

definition SimpleRAG_init :: rag_state where
  "SimpleRAG_init = \<lparr>user_documents = Map.empty, user_metadatas = Map.empty\<rparr>"

text \<open>\<open>d.get(k, [])\<close>\<close>

definition get_or_nil :: "('k \<rightharpoonup> 'v list) \<Rightarrow> 'k \<Rightarrow> 'v list" where
  "get_or_nil d k = (case d k of None \<Rightarrow> [] | Some v \<Rightarrow> v)"

definition get_user_document_count :: "rag_state \<Rightarrow> string \<Rightarrow> nat" where
  "get_user_document_count st uid = length (get_or_nil (user_documents st) uid)"

text \<open>
  \<open>SimpleRAG.add_documents\<close>. The metadata dictionaries are association lists;
  \<open>meta["user_id"] = user_id\<close> is \<open>AList.update\<close>. Reading
  \<open>self.user_metadatas[user_id]\<close> raises \<open>KeyError\<close> when the key is missing, which is
  after the documents were extended.
\<close>

definition SimpleRAG_add_documents ::
  "rag_state \<Rightarrow> string list \<Rightarrow> string \<Rightarrow> metadata list option
     \<Rightarrow> (error + ingest_reply) \<times> rag_state" where
  "SimpleRAG_add_documents st texts uid metadatas_arg =
     (if texts = [] then (Inr (Added 0 (get_user_document_count st uid)), st)
      else
        let metas =
              (case metadatas_arg of
                 None \<Rightarrow>
                   map (\<lambda>(i, text). [(''text'', text), (''source'', doc_id i), (''user_id'', uid)])
                     (enumerate 0 texts)
               | Some ms \<Rightarrow> map (AList.update ''user_id'' uid) ms);
            st1 =
              (if user_documents st uid = None
               then st\<lparr>user_documents := (user_documents st)(uid \<mapsto> []),
                       user_metadatas := (user_metadatas st)(uid \<mapsto> [])\<rparr>
               else st);
            docs = get_or_nil (user_documents st1) uid @ texts;
            st2 = st1\<lparr>user_documents := (user_documents st1)(uid \<mapsto> docs)\<rparr>
        in case user_metadatas st2 uid of
             None \<Rightarrow> (Inl KeyError, st2)
           | Some ms \<Rightarrow>
               (Inr (Added (length texts) (length docs)),
                st2\<lparr>user_metadatas := (user_metadatas st2)(uid \<mapsto> ms @ metas)\<rparr>))"

text \<open>\<open>ingest_file\<close> of \<open>simple_rag_service\<close>.\<close>

definition srs_ingest_file ::
  "(string \<Rightarrow> string) \<Rightarrow> rag_state \<Rightarrow> string \<Rightarrow> string option \<Rightarrow> string option
     \<Rightarrow> (error + ingest_reply) \<times> rag_state" where
  "srs_ingest_file reader st path src uid =
     (let text = reader path in
      if text = [] then (Inr (Ingested 0 [] (Some (no_readable_text path))), st)
      else
        let cs = chunks text;
            meta = [(''text'', text), (''source'', str_or src path),
                    (''user_id'', str_or uid ''default'')];
            metas = map (\<lambda>_. meta) cs
        in SimpleRAG_add_documents st cs (str_or uid ''default'') (Some metas))"

text \<open>\<open>SimpleRAG.clear_user_documents\<close>\<close>

definition clear_user_documents :: "rag_state \<Rightarrow> string \<Rightarrow> rag_state" where
  "clear_user_documents st uid =
     st\<lparr>user_documents := (user_documents st)(uid := None),
        user_metadatas := (user_metadatas st)(uid := None)\<rparr>"

section \<open>\<open>rag_impl\<close>: the remote vector store\<close>

text \<open>
  \<open>ingest_file\<close> of \<open>rag_impl\<close>. The function \<open>ingest_texts\<close>, which embeds the texts and
  upserts them into the remote index, is a parameter acting on the state \<open>vs\<close> of that
  index.
\<close>

definition rag_impl_ingest_file ::
  "(string \<Rightarrow> string)
     \<Rightarrow> ('s \<Rightarrow> string list \<Rightarrow> metadata list \<Rightarrow> (error + ingest_reply) \<times> 's)
     \<Rightarrow> 's \<Rightarrow> string \<Rightarrow> string option \<Rightarrow> (error + ingest_reply) \<times> 's" where
  "rag_impl_ingest_file reader ingest_texts vs path src =
     (let text = reader path in
      if text = [] then (Inr (Ingested 0 [] (Some (no_readable_text path))), vs)
      else
        let meta = [(''text'', text), (''source'', str_or src path)]
        in ingest_texts vs [text] [meta])"

section \<open>Properties of chunking\<close>

lemma py_range_length:
  "0 < n \<Longrightarrow> length (py_range i stop n) = (stop - i + n - 1) div n"
proof (induction i stop n rule: py_range.induct)
  case (1 i stop step)
  show ?case
  proof (cases "i < stop")
    case True
    define x where "x = stop - (i + step) + step - 1"
    have "stop - i + step - 1 = x + step \<or> stop - i < step"
      unfolding x_def using True 1(2) by arith
    then show ?thesis
    proof
      assume e: "stop - i + step - 1 = x + step"
      have "length (py_range i stop step) = Suc (length (py_range (i + step) stop step))"
        using True 1(2) by (subst py_range.simps) simp
      also have "\<dots> = Suc (x div step)"
        unfolding x_def using 1 True by simp
      also have "\<dots> = (x + step) div step"
        using 1(2) by simp
      also have "\<dots> = (stop - i + step - 1) div step"
        by (simp only: e)
      finally show ?thesis .
    next
      assume s: "stop - i < step"
      have a: "py_range (i + step) stop step = []"
        using s by (subst py_range.simps) simp
      have "length (py_range i stop step) = 1"
        using True 1(2) a by (subst py_range.simps) simp
      moreover have "(stop - i + step - 1) div step = 1"
      proof -
        have "step \<le> stop - i + step - 1" "stop - i + step - 1 < 2 * step"
          using True s by arith+
        then show ?thesis
          by (metis One_nat_def Suc_1 div_nat_eqI mult.commute mult_Suc_right nat_mult_1_right)
      qed
      ultimately show ?thesis by simp
    qed
  next
    case False
    then have "py_range i stop step = []"
      by (subst py_range.simps) simp
    moreover have "(stop - i + step - 1) div step = 0"
      using False 1(2) by simp
    ultimately show ?thesis by simp
  qed
qed

lemma py_range_nth:
  "0 < n \<Longrightarrow> k < length (py_range i stop n) \<Longrightarrow> py_range i stop n ! k = i + k * n"
proof (induction i stop n arbitrary: k rule: py_range.induct)
  case (1 i stop step)
  show ?case
  proof (cases "i < stop")
    case True
    then have eq: "py_range i stop step = i # py_range (i + step) stop step"
      using 1(2) by (subst py_range.simps) simp
    show ?thesis
    proof (cases k)
      case 0
      then show ?thesis by (simp add: eq)
    next
      case (Suc k')
      then have "k' < length (py_range (i + step) stop step)"
        using 1(3) eq by simp
      then have "py_range (i + step) stop step ! k' = i + step + k' * step"
        using 1(1) True 1(2) by simp
      then show ?thesis by (simp add: eq Suc)
    qed
  next
    case False
    then have "py_range i stop step = []"
      by (subst py_range.simps) simp
    then show ?thesis using 1(3) by simp
  qed
qed

lemma slices_concat:
  "0 < n \<Longrightarrow>
   concat (map (\<lambda>j. py_slice xs j (j + n)) (py_range i (length xs) n)) = drop i xs"
proof (induction i "length xs" n rule: py_range.induct)
  case (1 i step)
  show ?case
  proof (cases "i < length xs")
    case True
    then have eq: "py_range i (length xs) step = i # py_range (i + step) (length xs) step"
      using 1(2) by (subst py_range.simps) simp
    have "concat (map (\<lambda>j. py_slice xs j (j + step)) (py_range i (length xs) step))
          = take step (drop i xs) @ drop (i + step) xs"
      using 1(1) True 1(2) by (simp add: eq py_slice_def)
    also have "\<dots> = take step (drop i xs) @ drop step (drop i xs)"
      by (simp add: add.commute)
    also have "\<dots> = drop i xs"
      by (rule append_take_drop_id)
    finally show ?thesis .
  next
    case False
    then have "py_range i (length xs) step = []"
      by (subst py_range.simps) simp
    then show ?thesis using False by simp
  qed
qed

lemma chunks_length: "length (chunks t) = (length t + 999) div 1000"
  by (simp add: chunks_def py_range_length)

lemma chunks_concat: "concat (chunks t) = t"
  using slices_concat [of 1000 t 0] by (simp add: chunks_def)

lemma chunks_nth:
  assumes "k < length (chunks t)"
  shows "chunks t ! k = take 1000 (drop (1000 * k) t)"
proof -
  have k: "k < length (py_range 0 (length t) 1000)"
    using assms by (simp add: chunks_def)
  then have "py_range 0 (length t) 1000 ! k = k * 1000"
    using py_range_nth [of 1000 k 0 "length t"] by simp
  then show ?thesis
    using k by (simp add: chunks_def py_slice_def mult.commute)
qed

lemma ceil_div_less_iff: "0 < (n::nat) \<Longrightarrow> (k < (m + n - 1) div n) = (n * k < m)"
proof -
  assume n: "0 < n"
  have "(k < (m + n - 1) div n) = (Suc k \<le> (m + n - 1) div n)" by auto
  also have "\<dots> = (Suc k * n \<le> m + n - 1)"
    using n by (simp add: less_eq_div_iff_mult_less_eq)
  also have "\<dots> = (n * k < m)"
    using n by (auto simp: algebra_simps)
  finally show ?thesis .
qed

lemma chunks_index_iff: "(k < length (chunks t)) = (1000 * k < length t)"
  unfolding chunks_length using ceil_div_less_iff [of 1000 k "length t"]
  by (simp add: add.commute)

lemma chunks_nth_length:
  assumes "k < length (chunks t)"
  shows "length (chunks t ! k) = (if Suc k < length (chunks t) then 1000 else length t - 1000 * k)"
    and "0 < length (chunks t ! k)" and "length (chunks t ! k) \<le> 1000"
proof -
  have lt: "1000 * k < length t"
    using assms by (simp only: chunks_index_iff)
  have len: "length (chunks t ! k) = min 1000 (length t - 1000 * k)"
    using assms by (simp add: chunks_nth min.commute)
  show "0 < length (chunks t ! k)" "length (chunks t ! k) \<le> 1000"
    using lt by (simp_all add: len)
  show "length (chunks t ! k) = (if Suc k < length (chunks t) then 1000 else length t - 1000 * k)"
  proof (cases "Suc k < length (chunks t)")
    case True
    then have "1000 * Suc k < length t"
      by (simp only: chunks_index_iff)
    then show ?thesis using True by (simp add: len)
  next
    case False
    then have "\<not> 1000 * Suc k < length t"
      using chunks_index_iff [of "Suc k" t] by blast
    then have "length t \<le> 1000 + 1000 * k"
      by (simp add: not_less)
    then have "length t - 1000 * k \<le> 1000"
      by linarith
    then show ?thesis using False by (simp add: len)
  qed
qed

lemma chunks_nonempty: "t \<noteq> [] \<Longrightarrow> chunks t \<noteq> []"
proof -
  assume "t \<noteq> []"
  then have "0 < length (chunks t)"
    using chunks_index_iff [of 0 t] by simp
  then show ?thesis by auto
qed

section \<open>Ingestion\<close>

lemma ceil_div_1000: "int ((n + 999) div 1000) = \<lceil>rat_of_nat n / 1000\<rceil>"
proof -
  have "\<lceil>rat_of_nat n / 1000\<rceil> = \<lceil>rat_of_int (int n) / rat_of_int 1000\<rceil>" by simp
  also have "\<dots> = - (- int n div 1000)" by (simp only: ceiling_divide_eq_div)
  also have "\<dots> = (int n + 999) div 1000"
    by simp
  finally show ?thesis by (simp add: zdiv_int)
qed

lemma swr_ingest_ok:
  assumes "file_path req \<noteq> []" and "reader (file_path req) \<noteq> []"
  shows "swr_ingest reader req st =
     (Inr (Ingested (length (chunks (reader (file_path req))))
            (map doc_id [length (sw_documents st) ..<
                         length (sw_documents st) + length (chunks (reader (file_path req)))]) None),
      \<lparr>sw_documents = sw_documents st @ chunks (reader (file_path req)),
       sw_metadatas = sw_metadatas st @ map (\<lambda>_. [(''source'', str_or (source req) (file_path req)),
                      (''user_id'', str_or (user_id req) ''default'')])
                        (chunks (reader (file_path req)))\<rparr>)"
  using assms by (simp add: swr_ingest_def Let_def)

lemma add_documents_docs:
  assumes "texts \<noteq> []"
  shows "user_documents (snd (SimpleRAG_add_documents st texts uid ms)) uid
           = Some (get_or_nil (user_documents st) uid @ texts)"
  using assms
  by (auto simp: SimpleRAG_add_documents_def Let_def get_or_nil_def split: option.splits)

lemma srs_ingest_file_docs:
  assumes "reader path \<noteq> []"
  shows "user_documents (snd (srs_ingest_file reader st path src uid)) (str_or uid ''default'')
           = Some (get_or_nil (user_documents st) (str_or uid ''default'') @ chunks (reader path))"
  using assms chunks_nonempty [of "reader path"]
  by (simp add: srs_ingest_file_def Let_def add_documents_docs)

lemma srs_ingest_file_count:
  assumes "reader path \<noteq> []"
  shows "get_user_document_count (snd (srs_ingest_file reader st path src uid)) (str_or uid ''default'')
           = get_user_document_count st (str_or uid ''default'') + length (chunks (reader path))"
  using srs_ingest_file_docs [of reader path st src uid] assms
  by (simp add: get_user_document_count_def get_or_nil_def)

text \<open>
  Claim C1. Ingesting a non-empty text \<open>t\<close> splits it into \<open>\<lceil>len(t) / 1000\<rceil>\<close> chunks
  without overlap: every chunk has 1000 characters except a possibly shorter, non-empty last
  one, and the chunks concatenated in order are \<open>t\<close>. The store grows by exactly these
  chunks: the global store of \<open>simple_working_rag\<close>, and in \<open>simple_rag_service\<close> the
  store of the tenant \<open>user_id or "default"\<close>, whose document count grows by the number
  of chunks.
\<close>

theorem C1_ingest_chunks_and_count:
  assumes "file_path req \<noteq> []" and "reader (file_path req) = t" and "t \<noteq> []"
  shows "length (chunks t) = (length t + 999) div 1000
     \<and> int (length (chunks t)) = \<lceil>rat_of_nat (length t) / 1000\<rceil>
     \<and> concat (chunks t) = t
     \<and> (\<forall>k < length (chunks t).
          0 < length (chunks t ! k) \<and> length (chunks t ! k) \<le> 1000 \<and>
          length (chunks t ! k) = (if Suc k < length (chunks t) then 1000 else length t - 1000 * k))
     \<and> fst (swr_ingest reader req st) =
          Inr (Ingested (length (chunks t))
                 (map doc_id [length (sw_documents st) ..< length (sw_documents st) + length (chunks t)])
                 None)
     \<and> sw_documents (snd (swr_ingest reader req st)) = sw_documents st @ chunks t
     \<and> length (sw_documents (snd (swr_ingest reader req st)))
          = length (sw_documents st) + (length t + 999) div 1000
     \<and> user_documents (snd (srs_ingest_file reader rs (file_path req) (source req) (user_id req)))
            (str_or (user_id req) ''default'')
          = Some (get_or_nil (user_documents rs) (str_or (user_id req) ''default'') @ chunks t)
     \<and> get_user_document_count
            (snd (srs_ingest_file reader rs (file_path req) (source req) (user_id req)))
            (str_or (user_id req) ''default'')
          = get_user_document_count rs (str_or (user_id req) ''default'') + (length t + 999) div 1000"
proof -
  have a: "length (chunks t) = (length t + 999) div 1000"
    by (rule chunks_length)
  have b: "int (length (chunks t)) = \<lceil>rat_of_nat (length t) / 1000\<rceil>"
    by (simp only: a ceil_div_1000)
  have c: "\<forall>k < length (chunks t).
          0 < length (chunks t ! k) \<and> length (chunks t ! k) \<le> 1000 \<and>
          length (chunks t ! k) = (if Suc k < length (chunks t) then 1000 else length t - 1000 * k)"
    using chunks_nth_length [of _ t] by blast
  have d: "swr_ingest reader req st =
     (Inr (Ingested (length (chunks t))
            (map doc_id [length (sw_documents st) ..< length (sw_documents st) + length (chunks t)]) None),
      \<lparr>sw_documents = sw_documents st @ chunks t,
       sw_metadatas = sw_metadatas st @ map (\<lambda>_. [(''source'', str_or (source req) (file_path req)),
                      (''user_id'', str_or (user_id req) ''default'')]) (chunks t)\<rparr>)"
    using swr_ingest_ok [of req reader st] assms by simp
  have e: "length (sw_documents (snd (swr_ingest reader req st)))
          = length (sw_documents st) + (length t + 999) div 1000"
    by (simp add: d a)
  have f: "user_documents (snd (srs_ingest_file reader rs (file_path req) (source req) (user_id req)))
            (str_or (user_id req) ''default'')
          = Some (get_or_nil (user_documents rs) (str_or (user_id req) ''default'') @ chunks t)"
    using srs_ingest_file_docs [of reader "file_path req" rs "source req" "user_id req"] assms
    by simp
  have g: "get_user_document_count
            (snd (srs_ingest_file reader rs (file_path req) (source req) (user_id req)))
            (str_or (user_id req) ''default'')
          = get_user_document_count rs (str_or (user_id req) ''default'') + (length t + 999) div 1000"
    using srs_ingest_file_count [of reader "file_path req" rs "source req" "user_id req"] assms
    by (simp add: a)
  have h: "fst (swr_ingest reader req st) =
          Inr (Ingested (length (chunks t))
                 (map doc_id [length (sw_documents st) ..< length (sw_documents st) + length (chunks t)])
                 None)"
    by (simp only: d fst_conv)
  have i: "sw_documents (snd (swr_ingest reader req st)) = sw_documents st @ chunks t"
    by (simp add: d)
  show ?thesis
    using a b c e f g h i chunks_concat [of t] by blast
qed

text \<open>The theorem at the text \<open>"hello world"\<close>, ingested into empty stores.\<close>

theorem C1_ingest_chunks_and_count_witness:
  "file_path \<lparr>file_path = ''a.txt'', source = None, user_id = Some ''t1''\<rparr> \<noteq> []
   \<and> (\<lambda>_. ''hello world'') (file_path \<lparr>file_path = ''a.txt'', source = None, user_id = Some ''t1''\<rparr>)
        = ''hello world''
   \<and> ''hello world'' \<noteq> []
   \<and> length (chunks ''hello world'') = 1
   \<and> concat (chunks ''hello world'') = ''hello world''
   \<and> length (sw_documents (snd (swr_ingest (\<lambda>_. ''hello world'')
         \<lparr>file_path = ''a.txt'', source = None, user_id = Some ''t1''\<rparr>
         \<lparr>sw_documents = [], sw_metadatas = []\<rparr>))) = 1
   \<and> get_user_document_count
        (snd (srs_ingest_file (\<lambda>_. ''hello world'') SimpleRAG_init ''a.txt'' None (Some ''t1'')))
        ''t1'' = 1"
  using C1_ingest_chunks_and_count
    [of "\<lparr>file_path = ''a.txt'', source = None, user_id = Some ''t1''\<rparr>"
        "\<lambda>_. ''hello world''" "''hello world''"
        "\<lparr>sw_documents = [], sw_metadatas = []\<rparr>" SimpleRAG_init]
  by (simp add: str_or_def get_user_document_count_def get_or_nil_def SimpleRAG_init_def)

text \<open>
  Claim C5, as amended. When the reader yields no text for the path (the file is empty or
  could not be decoded), ingestion returns the dictionary with \<open>count = 0\<close>, no ids and
  the error message \<open>"No readable text in <path>"\<close>, raises nothing and leaves the store
  as it was; for the endpoint of \<open>simple_working_rag\<close> this is for a request that names a
  path.
\<close>

theorem C5_unreadable_ingest:
  assumes "reader path = []"
  shows "(file_path req = path \<and> path \<noteq> [] \<longrightarrow>
            swr_ingest reader req st
              = (Inr (Ingested 0 [] (Some (''No readable text in '' @ path))), st))
     \<and> srs_ingest_file reader rs path src uid
          = (Inr (Ingested 0 [] (Some (''No readable text in '' @ path))), rs)
     \<and> rag_impl_ingest_file reader ingest_texts vs path src
          = (Inr (Ingested 0 [] (Some (''No readable text in '' @ path))), vs)"
  using assms
  by (simp add: swr_ingest_def srs_ingest_file_def rag_impl_ingest_file_def no_readable_text_def)

text \<open>The theorem at a reader that finds no text in \<open>a.txt\<close>.\<close>

theorem C5_unreadable_ingest_witness:
  "(\<lambda>_. []) ''a.txt'' = ([] :: string)
   \<and> swr_ingest (\<lambda>_. []) \<lparr>file_path = ''a.txt'', source = None, user_id = None\<rparr>
        \<lparr>sw_documents = [''x''], sw_metadatas = [[]]\<rparr>
       = (Inr (Ingested 0 [] (Some ''No readable text in a.txt'')),
          \<lparr>sw_documents = [''x''], sw_metadatas = [[]]\<rparr>)
   \<and> srs_ingest_file (\<lambda>_. []) SimpleRAG_init ''a.txt'' None None
       = (Inr (Ingested 0 [] (Some ''No readable text in a.txt'')), SimpleRAG_init)"
  using C5_unreadable_ingest
    [of "\<lambda>_. []" "''a.txt''" "\<lparr>file_path = ''a.txt'', source = None, user_id = None\<rparr>"
        "\<lparr>sw_documents = [''x''], sw_metadatas = [[]]\<rparr>" SimpleRAG_init None None
        "\<lambda>vs texts metas. (Inl ValueError, vs)" "()"]
  by simp

text \<open>
  Claim C5 as stated fails: the error message is not the literal \<open>"no readable text"\<close>,
  and a request with an empty path is rejected with HTTP status 400 before any file is read.
\<close>

theorem C5_error_text_counterexample:
  "fst (swr_ingest (\<lambda>_. []) \<lparr>file_path = ''a.txt'', source = None, user_id = None\<rparr>
          \<lparr>sw_documents = [], sw_metadatas = []\<rparr>)
     \<noteq> Inr (Ingested 0 [] (Some ''no readable text''))
   \<and> fst (swr_ingest (\<lambda>_. []) \<lparr>file_path = [], source = None, user_id = None\<rparr>
          \<lparr>sw_documents = [], sw_metadatas = []\<rparr>)
     = Inl (HTTPException 400)"
  by (simp add: swr_ingest_def no_readable_text_def)

end
